theory Spec2Isabelle
  imports Main "HOL-Library.Sublist"
begin

section \<open>Data model of the bot\<close>

text \<open>
  Go strings and byte slices are sequences of bytes; \<^typ>\<open>string\<close> is a list of
  8-bit characters, so \<open>string(bytes)\<close> is the identity and \<open>len\<close> is \<^const>\<open>length\<close>.
\<close>

datatype Status = StatusWaiting

definition defaultMonitorIntervalSeconds :: int where
  "defaultMonitorIntervalSeconds = 5"

definition numQueue :: nat where
  "numQueue = 4"

definition commandStart :: string where
  "commandStart = ''/start''"

definition commandExecute :: string where
  "commandExecute = ''/execute''"

definition commandShowCode :: string where
  "commandShowCode = ''/showcode''"

definition messageDefault :: string where
  "messageDefault = ''Input your command:''"

definition messageUnknownCommand :: string where
  "messageUnknownCommand = ''Unknown command.''"

text \<open>\<open>fmt.Sprintf(messageErrorFormat, err)\<close> with the format \<open>"Error: %s"\<close>.\<close>

definition messageErrorFormat :: "string \<Rightarrow> string" where
  "messageErrorFormat err = ''Error: '' @ err"

record Session =
  UserID :: string
  CurrentStatus :: Status

record SessionPool =
  Sessions :: "string \<rightharpoonup> Session"

subsection \<open>Types of the Telegram client library, as far as the program uses them\<close>

record KeyboardButton =
  ButtonText :: string

definition NewKeyboardButtons :: "string list \<Rightarrow> KeyboardButton list" where
  "NewKeyboardButtons texts = map (\<lambda>t. \<lparr>ButtonText = t\<rparr>) texts"

record ReplyKeyboardMarkup =
  Keyboard :: "KeyboardButton list list"
  ResizeKeyboard :: bool

text \<open>
  The values stored in a \<open>map[string]interface{}\<close> of message options: the reply markup
  that the program stores, and the chat id, the text and the file that the calls of the
  client add to the map they are given.
\<close>

datatype option_value =
    ReplyMarkup ReplyKeyboardMarkup
  | ChatIDValue int
  | TextValue string
  | InputFileFromBytes string

type_synonym options = "string \<rightharpoonup> option_value"

datatype ChatAction = ChatActionTyping | ChatActionUploadPhoto | ChatActionUploadVideo

record User =
  Username :: "string option"
  FirstName :: string

record Chat =
  ID :: int

record Message =
  From :: User
  Text :: "string option"
  MessageChat :: Chat

definition HasText :: "Message \<Rightarrow> bool" where
  "HasText m = (Text m \<noteq> None)"

text \<open>
  The update handler is called with updates that carry a message
  (\<open>update.Message != nil\<close> is checked by the caller in \<open>main\<close>).
\<close>

record Update =
  UpdateMessage :: Message

text \<open>
  A response of the client. \<open>Description\<close> is a pointer in the library; the program
  reads it only from a response that is not \<open>Ok\<close>, where the client has set it, so it is
  modelled by the text it points to.
\<close>

record APIResponse =
  Ok :: bool
  Description :: string

subsection \<open>Program state\<close>

record ExecuteRequest =
  ChatID :: int
  MessageOptions :: options

definition allKeyboards :: "KeyboardButton list list" where
  "allKeyboards = [NewKeyboardButtons [commandExecute], NewKeyboardButtons [commandShowCode]]"

record Config =
  APIToken :: string
  AllowedIds :: "string list"
  MonitorInterval :: int
  ScriptPath :: string
  IsVerbose :: bool

text \<open>A buffered channel: the buffered elements, oldest first, and the capacity.\<close>

record 'a chan =
  buf :: "'a list"
  cap :: nat

definition make_chan :: "nat \<Rightarrow> 'a chan" where
  "make_chan n = \<lparr>buf = [], cap = n\<rparr>"

text \<open>The package-level variables.\<close>

record globals =
  apiToken :: string
  monitorInterval :: int
  isVerbose :: bool
  allowedIds :: "string list"
  scriptPath :: string
  pool :: SessionPool
  executeChannel :: "ExecuteRequest chan"

subsection \<open>The environment and the observable actions\<close>

text \<open>
  What the program reads from outside: the file system, the script run, the content
  sniffer of the standard library and the responses of the Telegram client.
  An error is represented by its text (\<open>err.Error()\<close>).

  A Go map is shared with the callee, and the calls of the client write into the options
  map they are given. \<open>SendPhoto\<close> and \<open>SendVideo\<close> therefore return, with the response,
  the map as the call leaves it: the program passes that same map to the \<open>SendMessage\<close>
  that reports a failed photo or video. \<open>SendMessage\<close> is on every path the last use of
  its map, so what it leaves there is not observed.
\<close>

record env =
  ioutil_ReadFile :: "string \<Rightarrow> string + string"
  exec_CombinedOutput :: "string \<Rightarrow> string \<times> string option"
  http_DetectContentType :: "string \<Rightarrow> string"
  bot_SendMessage :: "int \<Rightarrow> string \<Rightarrow> options \<Rightarrow> APIResponse"
  bot_SendPhoto :: "int \<Rightarrow> string \<Rightarrow> options \<Rightarrow> APIResponse \<times> options"
  bot_SendVideo :: "int \<Rightarrow> string \<Rightarrow> options \<Rightarrow> APIResponse \<times> options"

datatype mutex = PoolMutex | ExecuteLock

datatype event =
    LogPrintf string
  | Lock mutex
  | Unlock mutex
  | SendChatAction int ChatAction
  | SendMessage int string options
  | SendPhoto int string options
  | SendVideo int string options
  | ChanSend ExecuteRequest
  | ExecCommand string

section \<open>The functions of the program\<close>

definition readCode :: "env \<Rightarrow> globals \<Rightarrow> string" where
  "readCode e g =
     (case ioutil_ReadFile e (scriptPath g) of
        Inr bytes \<Rightarrow> bytes
      | Inl err \<Rightarrow> messageErrorFormat err)"

fun isAvailableID_loop :: "string list \<Rightarrow> string \<Rightarrow> bool" where
  "isAvailableID_loop [] ident = False"
| "isAvailableID_loop (v # vs) ident = (if v = ident then True else isAvailableID_loop vs ident)"

definition isAvailableID :: "globals \<Rightarrow> string \<Rightarrow> bool" where
  "isAvailableID g ident = isAvailableID_loop (allowedIds g) ident"

text \<open>The reply options built for every update.\<close>

definition update_options :: options where
  "update_options =
     [''reply_markup'' \<mapsto> ReplyMarkup \<lparr>Keyboard = allKeyboards, ResizeKeyboard = True\<rparr>]"

text \<open>The inner \<open>switch\<close> of \<open>processUpdate\<close>: the message chosen for a text.\<close>

definition update_message :: "env \<Rightarrow> globals \<Rightarrow> Session \<Rightarrow> string \<Rightarrow> string" where
  "update_message e g session txt =
     (case CurrentStatus session of
        StatusWaiting \<Rightarrow>
          if prefix commandStart txt then messageDefault
          else if prefix commandExecute txt then ''''
          else if prefix commandShowCode txt then readCode e g
          else if length txt > 0 then txt @ '': '' @ messageUnknownCommand
          else messageUnknownCommand)"

text \<open>
  \<open>processUpdate\<close> returns its result and the actions it performs, in order.
  \<open>ChanSend\<close> is the statement \<open>executeChannel <- request\<close>; whether it blocks is
  decided by the channel (see the system model below).
\<close>

definition processUpdate :: "env \<Rightarrow> globals \<Rightarrow> Update \<Rightarrow> bool \<times> event list" where
  "processUpdate e g update =
     (let m = UpdateMessage update in
      case Username (From m) of
        None \<Rightarrow>
          (False, [LogPrintf (''*** Not allowed (no user name): '' @ FirstName (From m))])
      | Some userID \<Rightarrow>
          if \<not> isAvailableID g userID then
            (False, [LogPrintf (''*** Id not allowed: '' @ userID)])
          else
            (case Sessions (pool g) userID of
               None \<Rightarrow>
                 (False,
                  [Lock PoolMutex,
                   LogPrintf (''*** Session does not exist for id: '' @ userID),
                   Unlock PoolMutex])
             | Some session \<Rightarrow>
                 (let txt = (if HasText m then (case Text m of Some t \<Rightarrow> t | None \<Rightarrow> '''') else '''');
                      options = update_options;
                      message = update_message e g session txt
                  in
                  if length message > 0 then
                    (let sent = bot_SendMessage e (ID (MessageChat m)) message options in
                     if Ok sent then
                       (True,
                        [Lock PoolMutex,
                         SendChatAction (ID (MessageChat m)) ChatActionTyping,
                         SendMessage (ID (MessageChat m)) message options,
                         Unlock PoolMutex])
                     else
                       (False,
                        [Lock PoolMutex,
                         SendChatAction (ID (MessageChat m)) ChatActionTyping,
                         SendMessage (ID (MessageChat m)) message options,
                         LogPrintf (''*** Failed to send message: '' @ Description sent),
                         Unlock PoolMutex]))
                  else
                    (False,
                     [Lock PoolMutex,
                      ChanSend \<lparr>ChatID = ID (MessageChat m), MessageOptions = options\<rparr>,
                      Unlock PoolMutex]))))"

subsection \<open>Dispatch outcomes read off the actions\<close>

datatype DispatchOutcome = ReplyWith string | Enqueue ExecuteRequest

text \<open>
  Every message sent is a reply, every channel send is an enqueue; an update that
  produces neither is dropped.
\<close>

fun outcomes :: "event list \<Rightarrow> DispatchOutcome list" where
  "outcomes [] = []"
| "outcomes (SendMessage c msg opts # evs) = ReplyWith msg # outcomes evs"
| "outcomes (ChanSend r # evs) = Enqueue r # outcomes evs"
| "outcomes (_ # evs) = outcomes evs"

definition dispatch :: "env \<Rightarrow> globals \<Rightarrow> Update \<Rightarrow> DispatchOutcome list" where
  "dispatch e g update = outcomes (snd (processUpdate e g update))"

text \<open>The text of an update: empty for a message without text.\<close>

definition update_text :: "Update \<Rightarrow> string" where
  "update_text update =
     (if HasText (UpdateMessage update)
      then (case Text (UpdateMessage update) of Some t \<Rightarrow> t | None \<Rightarrow> '''')
      else '''')"

text \<open>An update from an allowed identity whose session is present.\<close>

definition admitted :: "globals \<Rightarrow> Update \<Rightarrow> bool" where
  "admitted g update =
     (case Username (From (UpdateMessage update)) of
        None \<Rightarrow> False
      | Some userID \<Rightarrow> isAvailableID g userID \<and> Sessions (pool g) userID \<noteq> None)"

subsection \<open>The earlier copy of \<open>processUpdate\<close> (src/main.go)\<close>

text \<open>
  The earlier copy spells the constants \<open>CommandStart\<close>, \<open>MessageDefault\<close>, ... with
  the same values; its fallback case has no test of the length of the text.
\<close>

definition update_message_legacy :: "env \<Rightarrow> globals \<Rightarrow> Session \<Rightarrow> string \<Rightarrow> string" where
  "update_message_legacy e g session txt =
     (case CurrentStatus session of
        StatusWaiting \<Rightarrow>
          if prefix commandStart txt then messageDefault
          else if prefix commandExecute txt then ''''
          else if prefix commandShowCode txt then readCode e g
          else txt @ '': '' @ messageUnknownCommand)"

definition processUpdate_legacy :: "env \<Rightarrow> globals \<Rightarrow> Update \<Rightarrow> bool \<times> event list" where
  "processUpdate_legacy e g update =
     (let m = UpdateMessage update in
      case Username (From m) of
        None \<Rightarrow>
          (False, [LogPrintf (''*** Not allowed (no user name): '' @ FirstName (From m))])
      | Some userId \<Rightarrow>
          if \<not> isAvailableID g userId then
            (False, [LogPrintf (''*** Id not allowed: '' @ userId)])
          else
            (case Sessions (pool g) userId of
               None \<Rightarrow>
                 (False,
                  [Lock PoolMutex,
                   LogPrintf (''*** Session does not exist for id: '' @ userId),
                   Unlock PoolMutex])
             | Some session \<Rightarrow>
                 (let txt = (if HasText m then (case Text m of Some t \<Rightarrow> t | None \<Rightarrow> '''') else '''');
                      options = update_options;
                      message = update_message_legacy e g session txt
                  in
                  if length message > 0 then
                    (let sent = bot_SendMessage e (ID (MessageChat m)) message options in
                     if Ok sent then
                       (True,
                        [Lock PoolMutex,
                         SendChatAction (ID (MessageChat m)) ChatActionTyping,
                         SendMessage (ID (MessageChat m)) message options,
                         Unlock PoolMutex])
                     else
                       (False,
                        [Lock PoolMutex,
                         SendChatAction (ID (MessageChat m)) ChatActionTyping,
                         SendMessage (ID (MessageChat m)) message options,
                         LogPrintf (''*** Failed to send message: '' @ Description sent),
                         Unlock PoolMutex]))
                  else
                    (False,
                     [Lock PoolMutex,
                      ChanSend \<lparr>ChatID = ID (MessageChat m), MessageOptions = options\<rparr>,
                      Unlock PoolMutex]))))"

definition dispatch_legacy :: "env \<Rightarrow> globals \<Rightarrow> Update \<Rightarrow> DispatchOutcome list" where
  "dispatch_legacy e g update = outcomes (snd (processUpdate_legacy e g update))"

subsection \<open>The worker: \<open>processExecuteRequest\<close>\<close>

text \<open>
  Everything between \<open>executeLock.Lock()\<close> and the deferred \<open>executeLock.Unlock()\<close>:
  the result and the actions, in order. \<open>ExecCommand\<close> is the run of the script.
  Every send is given \<open>request.MessageOptions\<close>; after a failed \<open>SendPhoto\<close> or
  \<open>SendVideo\<close> that map is the one the failed call has written into (\<open>written\<close>).
\<close>

definition execute_body :: "env \<Rightarrow> globals \<Rightarrow> ExecuteRequest \<Rightarrow> bool \<times> event list" where
  "execute_body e g request =
     (case exec_CombinedOutput e (scriptPath g) of
        (bytes, Some err) \<Rightarrow>
          (let message = ''Error running script: '' @ err @ '' ('' @ bytes @ '')'';
               sent = bot_SendMessage e (ChatID request) message (MessageOptions request)
           in
           if Ok sent then
             (True,
              [SendChatAction (ChatID request) ChatActionTyping,
               ExecCommand (scriptPath g),
               LogPrintf (''*** '' @ message),
               SendMessage (ChatID request) message (MessageOptions request)])
           else
             (False,
              [SendChatAction (ChatID request) ChatActionTyping,
               ExecCommand (scriptPath g),
               LogPrintf (''*** '' @ message),
               SendMessage (ChatID request) message (MessageOptions request),
               LogPrintf (''*** Failed to send error message: '' @ Description sent)]))
      | (bytes, None) \<Rightarrow>
          (let mime = http_DetectContentType e bytes in
           if prefix ''image'' mime then
             (let (sent, written) =
                    bot_SendPhoto e (ChatID request) bytes (MessageOptions request)
              in
              if Ok sent then
                (True,
                 [SendChatAction (ChatID request) ChatActionTyping,
                  ExecCommand (scriptPath g),
                  SendChatAction (ChatID request) ChatActionUploadPhoto,
                  SendPhoto (ChatID request) bytes (MessageOptions request)])
              else
                (let message = ''Failed to send photo: '' @ Description sent;
                     sent2 = bot_SendMessage e (ChatID request) message written
                 in
                 if Ok sent2 then
                   (True,
                    [SendChatAction (ChatID request) ChatActionTyping,
                     ExecCommand (scriptPath g),
                     SendChatAction (ChatID request) ChatActionUploadPhoto,
                     SendPhoto (ChatID request) bytes (MessageOptions request),
                     LogPrintf (''*** '' @ message),
                     SendMessage (ChatID request) message written])
                 else
                   (False,
                    [SendChatAction (ChatID request) ChatActionTyping,
                     ExecCommand (scriptPath g),
                     SendChatAction (ChatID request) ChatActionUploadPhoto,
                     SendPhoto (ChatID request) bytes (MessageOptions request),
                     LogPrintf (''*** '' @ message),
                     SendMessage (ChatID request) message written,
                     LogPrintf (''*** Failed to send error message: '' @ Description sent2)])))
           else if prefix ''video'' mime then
             (let (sent, written) =
                    bot_SendVideo e (ChatID request) bytes (MessageOptions request)
              in
              if Ok sent then
                (True,
                 [SendChatAction (ChatID request) ChatActionTyping,
                  ExecCommand (scriptPath g),
                  SendChatAction (ChatID request) ChatActionUploadVideo,
                  SendVideo (ChatID request) bytes (MessageOptions request)])
              else
                (let message = ''Failed to send video: '' @ Description sent;
                     sent2 = bot_SendMessage e (ChatID request) message written
                 in
                 if Ok sent2 then
                   (True,
                    [SendChatAction (ChatID request) ChatActionTyping,
                     ExecCommand (scriptPath g),
                     SendChatAction (ChatID request) ChatActionUploadVideo,
                     SendVideo (ChatID request) bytes (MessageOptions request),
                     LogPrintf (''*** '' @ message),
                     SendMessage (ChatID request) message written])
                 else
                   (False,
                    [SendChatAction (ChatID request) ChatActionTyping,
                     ExecCommand (scriptPath g),
                     SendChatAction (ChatID request) ChatActionUploadVideo,
                     SendVideo (ChatID request) bytes (MessageOptions request),
                     LogPrintf (''*** '' @ message),
                     SendMessage (ChatID request) message written,
                     LogPrintf (''*** Failed to send error message: '' @ Description sent2)])))
           else
             (let message = bytes;
                  sent = bot_SendMessage e (ChatID request) message (MessageOptions request)
              in
              if Ok sent then
                (True,
                 [SendChatAction (ChatID request) ChatActionTyping,
                  ExecCommand (scriptPath g),
                  SendMessage (ChatID request) message (MessageOptions request)])
              else
                (False,
                 [SendChatAction (ChatID request) ChatActionTyping,
                  ExecCommand (scriptPath g),
                  SendMessage (ChatID request) message (MessageOptions request),
                  LogPrintf (''*** Failed to send message: '' @ Description sent)]))))"

text \<open>
  The lock is taken first; the deferred unlock runs when the function returns,
  whichever branch was taken.
\<close>

definition processExecuteRequest :: "env \<Rightarrow> globals \<Rightarrow> ExecuteRequest \<Rightarrow> bool \<times> event list" where
  "processExecuteRequest e g request =
     (let (result, evs) = execute_body e g request
      in (result, [Lock ExecuteLock] @ evs @ [Unlock ExecuteLock]))"

text \<open>The sends of each kind among a list of actions, in order.\<close>

fun photo_sends :: "event list \<Rightarrow> (int \<times> string \<times> options) list" where
  "photo_sends [] = []"
| "photo_sends (SendPhoto c bytes opts # evs) = (c, bytes, opts) # photo_sends evs"
| "photo_sends (_ # evs) = photo_sends evs"

fun video_sends :: "event list \<Rightarrow> (int \<times> string \<times> options) list" where
  "video_sends [] = []"
| "video_sends (SendVideo c bytes opts # evs) = (c, bytes, opts) # video_sends evs"
| "video_sends (_ # evs) = video_sends evs"

fun message_sends :: "event list \<Rightarrow> (int \<times> string \<times> options) list" where
  "message_sends [] = []"
| "message_sends (SendMessage c msg opts # evs) = (c, msg, opts) # message_sends evs"
| "message_sends (_ # evs) = message_sends evs"

subsection \<open>Initialization\<close>

text \<open>The loop over \<open>allowedIds\<close> that fills the map of sessions.\<close>

definition init_sessions :: "string list \<Rightarrow> string \<rightharpoonup> Session" where
  "init_sessions ids =
     fold (\<lambda>v sessions. sessions(v \<mapsto> \<lparr>UserID = v, CurrentStatus = StatusWaiting\<rparr>)) ids Map.empty"

text \<open>
  \<open>init\<close> takes the result of \<open>getConfig\<close> (an error text or the configuration) and
  panics with the error text when there is one.
\<close>

definition init :: "string + Config \<Rightarrow> string + globals" where
  "init r =
     (case r of
        Inr config \<Rightarrow>
          Inr \<lparr>apiToken = APIToken config,
               monitorInterval =
                 (if MonitorInterval config \<le> 0 then defaultMonitorIntervalSeconds
                  else MonitorInterval config),
               isVerbose = IsVerbose config,
               allowedIds = AllowedIds config,
               scriptPath = ScriptPath config,
               pool = \<lparr>Sessions = init_sessions (AllowedIds config)\<rparr>,
               executeChannel = make_chan numQueue\<rparr>
      | Inl err \<Rightarrow> Inl err)"

section \<open>The running system\<close>

subsection \<open>Buffered channels\<close>

text \<open>
  A send on a buffered channel appends to the buffer when there is room and blocks
  otherwise; a receive takes the oldest element and blocks when the buffer is empty.
  \<open>None\<close> stands for "blocks".
\<close>

definition chan_send :: "'a chan \<Rightarrow> 'a \<Rightarrow> 'a chan option" where
  "chan_send c x = (if length (buf c) < cap c then Some (c\<lparr>buf := buf c @ [x]\<rparr>) else None)"

definition chan_recv :: "'a chan \<Rightarrow> ('a \<times> 'a chan) option" where
  "chan_recv c = (case buf c of [] \<Rightarrow> None | x # xs \<Rightarrow> Some (x, c\<lparr>buf := xs\<rparr>))"

subsection \<open>Goroutines, mutexes and the schedule\<close>

text \<open>
  A goroutine is either the worker loop started by \<open>main\<close> or the handler of one
  update. It carries the actions of its current call: those already performed
  and those still to be performed.
\<close>

record thread =
  worker :: bool
  past :: "event list"
  todo :: "event list"

text \<open>
  The shared state: the package-level variables, the two mutexes, the goroutines,
  and the history of the channel (every request sent, every request received).
\<close>

record system =
  vars :: globals
  locked :: "mutex \<Rightarrow> bool"
  threads :: "thread list"
  pushed :: "ExecuteRequest list"
  popped :: "ExecuteRequest list"

text \<open>The state in which \<open>main\<close> has started the worker loop and waits for updates.\<close>

definition main_system :: "globals \<Rightarrow> system" where
  "main_system g =
     \<lparr>vars = g,
      locked = (\<lambda>m. False),
      threads = [\<lparr>worker = True, past = [], todo = []\<rparr>],
      pushed = [],
      popped = []\<rparr>"

text \<open>
  The effect of one action on the shared state; \<open>None\<close> when the action blocks.
  Only locking, unlocking and sending on the channel touch the shared state.
  A mutex is locked or not, whoever locked it; unlocking leaves it unlocked.
\<close>

fun perform :: "system \<Rightarrow> event \<Rightarrow> system option" where
  "perform s (Lock m) =
     (if locked s m then None else Some (s\<lparr>locked := (locked s)(m := True)\<rparr>))"
| "perform s (Unlock m) = Some (s\<lparr>locked := (locked s)(m := False)\<rparr>)"
| "perform s (ChanSend r) =
     (case chan_send (executeChannel (vars s)) r of
        None \<Rightarrow> None
      | Some c \<Rightarrow> Some (s\<lparr>vars := (vars s)\<lparr>executeChannel := c\<rparr>, pushed := pushed s @ [r]\<rparr>))"
| "perform s _ = Some s"

text \<open>
  The moves of the system: an update arrives and its handler starts
  (\<open>processUpdate\<close>); an idle worker receives a request from the channel and starts
  \<open>processExecuteRequest\<close> on it; a goroutine performs its next action.
  The environment of a call is the one of the move that starts it.
\<close>

datatype action = Arrive env Update | Receive env nat | Act nat

fun step :: "system \<Rightarrow> action \<Rightarrow> system option" where
  "step s (Arrive e u) =
     Some (s\<lparr>threads := threads s @
               [\<lparr>worker = False, past = [], todo = snd (processUpdate e (vars s) u)\<rparr>]\<rparr>)"
| "step s (Receive e i) =
     (if i < length (threads s) \<and> worker (threads s ! i) \<and> todo (threads s ! i) = [] then
        (case chan_recv (executeChannel (vars s)) of
           None \<Rightarrow> None
         | Some (r, c) \<Rightarrow>
             Some (s\<lparr>vars := (vars s)\<lparr>executeChannel := c\<rparr>,
                     threads := (threads s)
                       [i := \<lparr>worker = True, past = [],
                              todo = snd (processExecuteRequest e (vars s) r)\<rparr>],
                     popped := popped s @ [r]\<rparr>))
      else None)"
| "step s (Act i) =
     (if i < length (threads s) then
        (case todo (threads s ! i) of
           [] \<Rightarrow> None
         | ev # rest \<Rightarrow>
             (case perform s ev of
                None \<Rightarrow> None
              | Some s' \<Rightarrow>
                  Some (s'\<lparr>threads := (threads s')
                            [i := (threads s' ! i)
                                    \<lparr>past := past (threads s' ! i) @ [ev], todo := rest\<rparr>]\<rparr>)))
      else None)"

fun run :: "system \<Rightarrow> action list \<Rightarrow> system option" where
  "run s [] = Some s"
| "run s (a # as) = (case step s a of None \<Rightarrow> None | Some s' \<Rightarrow> run s' as)"

text \<open>
  A goroutine is acting on an execution request when it has taken the execution lock
  and not yet released it.
\<close>

definition in_flight :: "thread \<Rightarrow> bool" where
  "in_flight t = (Lock ExecuteLock \<in> set (past t) \<and> Unlock ExecuteLock \<notin> set (past t))"

definition no_execute_lock :: "event list \<Rightarrow> bool" where
  "no_execute_lock evs = (Lock ExecuteLock \<notin> set evs \<and> Unlock ExecuteLock \<notin> set evs)"

text \<open>The requests buffered in the execution queue.\<close>

definition queue :: "system \<Rightarrow> ExecuteRequest list" where
  "queue s = buf (executeChannel (vars s))"

subsection \<open>Invariants of the running system\<close>

text \<open>
  The actions of a worker's call are none, or the lock, actions that do not touch the
  execution lock, and the unlock; a handler never touches the execution lock.
\<close>

definition program_ok :: "thread \<Rightarrow> bool" where
  "program_ok t =
     (if worker t then
        past t @ todo t = [] \<or>
        (\<exists>body. past t @ todo t = Lock ExecuteLock # body @ [Unlock ExecuteLock] \<and>
                no_execute_lock body)
      else no_execute_lock (past t @ todo t))"

text \<open>The execution lock is held exactly when one goroutine is acting on a request.\<close>

definition lock_inv :: "system \<Rightarrow> bool" where
  "lock_inv s =
     ((\<forall>t \<in> set (threads s). program_ok t) \<and>
      length (filter in_flight (threads s)) = (if locked s ExecuteLock then 1 else 0))"

text \<open>The channel keeps its capacity, and its history is consistent with its buffer.\<close>

definition chan_inv :: "system \<Rightarrow> bool" where
  "chan_inv s =
     (cap (executeChannel (vars s)) = numQueue \<and>
      length (queue s) \<le> numQueue \<and>
      pushed s = popped s @ queue s)"

text \<open>The variables other than the channel are those of the start.\<close>

definition same_config :: "globals \<Rightarrow> system \<Rightarrow> bool" where
  "same_config g s =
     (allowedIds (vars s) = allowedIds g \<and> pool (vars s) = pool g \<and>
      scriptPath (vars s) = scriptPath g)"

section \<open>Sample inputs\<close>

text \<open>The configuration of the README's sample, and an environment in which every call succeeds.\<close>

definition sample_globals :: globals where
  "sample_globals =
     \<lparr>apiToken = ''0123456789:abcdefghijklmnopqrstuvwyz-x-0a1b2c3d4e'',
      monitorInterval = 5,
      isVerbose = False,
      allowedIds = [''telegram_id_1'', ''telegram_id_2''],
      scriptPath = ''/home/pi/python/opencv/detect_face.py'',
      pool = \<lparr>Sessions = init_sessions [''telegram_id_1'', ''telegram_id_2'']\<rparr>,
      executeChannel = make_chan numQueue\<rparr>"

definition ok_response :: APIResponse where
  "ok_response = \<lparr>Ok = True, Description = ''''\<rparr>"

definition sample_env :: env where
  "sample_env =
     \<lparr>ioutil_ReadFile = (\<lambda>p. Inr ''import cv2''),
      exec_CombinedOutput = (\<lambda>p. (''no face'', None)),
      http_DetectContentType = (\<lambda>bytes. ''text/plain; charset=utf-8''),
      bot_SendMessage = (\<lambda>c m opts. ok_response),
      bot_SendPhoto =
        (\<lambda>c bytes opts.
           (ok_response,
            opts(''chat_id'' \<mapsto> ChatIDValue c, ''photo'' \<mapsto> InputFileFromBytes bytes))),
      bot_SendVideo =
        (\<lambda>c bytes opts.
           (ok_response,
            opts(''chat_id'' \<mapsto> ChatIDValue c, ''video'' \<mapsto> InputFileFromBytes bytes)))\<rparr>"

definition sample_update :: "string \<Rightarrow> string option \<Rightarrow> Update" where
  "sample_update user txt =
     \<lparr>UpdateMessage =
        \<lparr>From = \<lparr>Username = Some user, FirstName = ''First''\<rparr>,
         Text = txt,
         MessageChat = \<lparr>ID = 42\<rparr>\<rparr>\<rparr>"

definition failed_response :: "string \<Rightarrow> APIResponse" where
  "failed_response d = \<lparr>Ok = False, Description = d\<rparr>"

definition sample_request :: ExecuteRequest where
  "sample_request = \<lparr>ChatID = 42, MessageOptions = update_options\<rparr>"

definition sample_config :: Config where
  "sample_config =
     \<lparr>APIToken = ''0123456789:abcdefghijklmnopqrstuvwyz-x-0a1b2c3d4e'',
      AllowedIds = [''telegram_id_1'', ''telegram_id_2''],
      MonitorInterval = 5,
      ScriptPath = ''/home/pi/python/opencv/detect_face.py'',
      IsVerbose = False\<rparr>"

definition sample_schedule :: "action list" where
  "sample_schedule =
     [Arrive sample_env (sample_update ''telegram_id_1'' (Some ''/execute'')),
      Act 1, Act 1, Act 1,
      Receive sample_env 0,
      Act 0, Act 0]"

definition execute_update :: "int \<Rightarrow> Update" where
  "execute_update c =
     \<lparr>UpdateMessage =
        \<lparr>From = \<lparr>Username = Some ''telegram_id_2'', FirstName = ''Second''\<rparr>,
         Text = Some ''/execute'',
         MessageChat = \<lparr>ID = c\<rparr>\<rparr>\<rparr>"

definition burst_schedule :: "action list" where
  "burst_schedule =
     [Arrive sample_env (execute_update 1), Act 1, Act 1, Act 1,
      Arrive sample_env (execute_update 2), Act 2, Act 2, Act 2,
      Arrive sample_env (execute_update 3), Act 3, Act 3, Act 3,
      Arrive sample_env (execute_update 4), Act 4, Act 4, Act 4,
      Arrive sample_env (execute_update 5), Act 5]"

definition png_signature :: string where
  "png_signature = [CHR 0x89, CHR ''P'', CHR ''N'', CHR ''G'', CHR 0x0D, CHR 0x0A, CHR 0x1A, CHR 0x0A]"

definition sample_sniff :: "string \<Rightarrow> string" where
  "sample_sniff bytes =
     (if prefix png_signature bytes then ''image/png'' else ''text/plain; charset=utf-8'')"

definition camera_env :: env where
  "camera_env =
     sample_env\<lparr>exec_CombinedOutput := \<lambda>p. (png_signature @ ''IHDR'', None),
                 http_DetectContentType := sample_sniff\<rparr>"

text \<open>The same, with a photo send that fails after writing into the options map.\<close>

definition refused_photo_env :: env where
  "refused_photo_env =
     camera_env\<lparr>bot_SendPhoto :=
       \<lambda>c bytes opts.
          (failed_response ''Bad Request'',
           opts(''chat_id'' \<mapsto> ChatIDValue c, ''photo'' \<mapsto> InputFileFromBytes bytes))\<rparr>"

section \<open>Properties of the dispatch\<close>

lemma dispatch_admitted:
  assumes "admitted g update"
  obtains session where
    "dispatch e g update =
       (let message = update_message e g session (update_text update) in
        if length message > 0 then [ReplyWith message]
        else [Enqueue \<lparr>ChatID = ID (MessageChat (UpdateMessage update)),
                       MessageOptions = update_options\<rparr>])"
proof -
  from assms obtain userID session where
    u: "Username (From (UpdateMessage update)) = Some userID"
    and a: "isAvailableID g userID" and s: "Sessions (pool g) userID = Some session"
    by (auto simp: admitted_def split: option.splits)
  have "dispatch e g update =
       (let message = update_message e g session (update_text update) in
        if length message > 0 then [ReplyWith message]
        else [Enqueue \<lparr>ChatID = ID (MessageChat (UpdateMessage update)),
                       MessageOptions = update_options\<rparr>])"
    using u a s by (simp add: dispatch_def processUpdate_def update_text_def Let_def)
  then show ?thesis by (rule that)
qed

text \<open>
  C6: for an update from an allowed identity whose session is present and whose text
  begins with none of \<open>/start\<close>, \<open>/execute\<close>, \<open>/showcode\<close>, the only outcome is a reply:
  \<open>"t: Unknown command."\<close> for a non-empty text \<open>t\<close>, and \<open>"Unknown command."\<close> for an empty
  text (a message without text).
\<close>

theorem unknown_command_reply:
  assumes "admitted g update"
    and "\<not> prefix ''/start'' (update_text update)"
    and "\<not> prefix ''/execute'' (update_text update)"
    and "\<not> prefix ''/showcode'' (update_text update)"
  shows "(update_text update \<noteq> [] \<longrightarrow>
            dispatch e g update = [ReplyWith (update_text update @ '': Unknown command.'')]) \<and>
         (update_text update = [] \<longrightarrow>
            dispatch e g update = [ReplyWith ''Unknown command.''])"
proof -
  obtain session where d: "dispatch e g update =
       (let message = update_message e g session (update_text update) in
        if length message > 0 then [ReplyWith message]
        else [Enqueue \<lparr>ChatID = ID (MessageChat (UpdateMessage update)),
                       MessageOptions = update_options\<rparr>])"
    using assms(1) by (rule dispatch_admitted)
  have "update_message e g session (update_text update) =
          (if update_text update \<noteq> [] then update_text update @ '': Unknown command.''
           else ''Unknown command.'')"
    using assms(2-4)
    by (cases "CurrentStatus session")
       (simp add: update_message_def commandStart_def commandExecute_def commandShowCode_def
          messageUnknownCommand_def)
  with d show ?thesis by (simp add: Let_def)
qed

theorem unknown_command_reply_witness:
  "admitted sample_globals (sample_update ''telegram_id_1'' (Some ''hello'')) \<and>
   dispatch sample_env sample_globals (sample_update ''telegram_id_1'' (Some ''hello''))
     = [ReplyWith ''hello: Unknown command.''] \<and>
   admitted sample_globals (sample_update ''telegram_id_2'' None) \<and>
   dispatch sample_env sample_globals (sample_update ''telegram_id_2'' None)
     = [ReplyWith ''Unknown command.'']"
proof -
  have a1: "admitted sample_globals (sample_update ''telegram_id_1'' (Some ''hello''))"
    by (simp add: admitted_def sample_globals_def sample_update_def isAvailableID_def
        init_sessions_def)
  have a2: "admitted sample_globals (sample_update ''telegram_id_2'' None)"
    by (simp add: admitted_def sample_globals_def sample_update_def isAvailableID_def
        init_sessions_def)
  have t1: "update_text (sample_update ''telegram_id_1'' (Some ''hello'')) = ''hello''"
    by (simp add: update_text_def sample_update_def HasText_def)
  have t2: "update_text (sample_update ''telegram_id_2'' None) = ''''"
    by (simp add: update_text_def sample_update_def HasText_def)
  show ?thesis
    using unknown_command_reply [OF a1, of sample_env]
      unknown_command_reply [OF a2, of sample_env] a1 a2
    by (simp add: t1 t2)
qed

lemma execute_not_start: "prefix ''/execute'' t \<Longrightarrow> \<not> prefix ''/start'' t"
  by (auto simp: prefix_def)

lemma showcode_not_start: "prefix ''/showcode'' t \<Longrightarrow> \<not> prefix ''/start'' t"
  by (auto simp: prefix_def)

lemma showcode_not_execute: "prefix ''/showcode'' t \<Longrightarrow> \<not> prefix ''/execute'' t"
  by (auto simp: prefix_def)

text \<open>
  C5: for an update from an allowed identity whose session is present and whose text
  begins with \<open>/execute\<close>, the only outcome is an enqueue, never a reply; the request
  carries the chat id of the update and the options with the keyboard of the two commands.
\<close>

theorem execute_enqueues:
  assumes "admitted g update"
    and "prefix ''/execute'' (update_text update)"
  shows "dispatch e g update =
           [Enqueue \<lparr>ChatID = ID (MessageChat (UpdateMessage update)),
                     MessageOptions = update_options\<rparr>] \<and>
         (\<forall>msg. ReplyWith msg \<notin> set (dispatch e g update)) \<and>
         update_options ''reply_markup'' =
           Some (ReplyMarkup \<lparr>Keyboard = [[\<lparr>ButtonText = ''/execute''\<rparr>],
                                            [\<lparr>ButtonText = ''/showcode''\<rparr>]],
                               ResizeKeyboard = True\<rparr>)"
proof -
  obtain session where d: "dispatch e g update =
       (let message = update_message e g session (update_text update) in
        if length message > 0 then [ReplyWith message]
        else [Enqueue \<lparr>ChatID = ID (MessageChat (UpdateMessage update)),
                       MessageOptions = update_options\<rparr>])"
    using assms(1) by (rule dispatch_admitted)
  have "update_message e g session (update_text update) = ''''"
    using assms(2) execute_not_start [OF assms(2)]
    by (cases "CurrentStatus session")
       (simp add: update_message_def commandStart_def commandExecute_def)
  with d have "dispatch e g update =
           [Enqueue \<lparr>ChatID = ID (MessageChat (UpdateMessage update)),
                     MessageOptions = update_options\<rparr>]"
    by (simp add: Let_def)
  moreover have "update_options ''reply_markup'' =
           Some (ReplyMarkup \<lparr>Keyboard = [[\<lparr>ButtonText = ''/execute''\<rparr>],
                                            [\<lparr>ButtonText = ''/showcode''\<rparr>]],
                               ResizeKeyboard = True\<rparr>)"
    by (simp add: update_options_def allKeyboards_def NewKeyboardButtons_def
        commandExecute_def commandShowCode_def)
  ultimately show ?thesis by simp
qed

lemma sample_admitted:
  "admitted sample_globals (sample_update ''telegram_id_1'' txt)"
  by (simp add: admitted_def sample_globals_def sample_update_def isAvailableID_def
      init_sessions_def)

lemma sample_update_text:
  "update_text (sample_update user (Some t)) = t"
  by (simp add: update_text_def sample_update_def HasText_def)

theorem execute_enqueues_witness:
  "admitted sample_globals (sample_update ''telegram_id_1'' (Some ''/execute now'')) \<and>
   prefix ''/execute'' (update_text (sample_update ''telegram_id_1'' (Some ''/execute now''))) \<and>
   dispatch sample_env sample_globals (sample_update ''telegram_id_1'' (Some ''/execute now''))
     = [Enqueue \<lparr>ChatID = 42, MessageOptions = update_options\<rparr>]"
  using execute_enqueues [OF sample_admitted, of "Some ''/execute now''" sample_env]
    sample_admitted [of "Some ''/execute now''"]
  by (simp add: sample_update_text) (simp add: sample_update_def)

text \<open>
  C2: when the script file is readable and empty, \<open>/showcode\<close> from an allowed identity
  with its session present sends no reply and pushes an execution request: the message is
  empty, and an empty message is what stands for \<open>/execute\<close>.
\<close>

theorem showcode_empty_file_enqueues:
  assumes "admitted g update"
    and "prefix ''/showcode'' (update_text update)"
    and "ioutil_ReadFile e (scriptPath g) = Inr ''''"
  shows "dispatch e g update =
           [Enqueue \<lparr>ChatID = ID (MessageChat (UpdateMessage update)),
                     MessageOptions = update_options\<rparr>] \<and>
         snd (processUpdate e g update) =
           [Lock PoolMutex,
            ChanSend \<lparr>ChatID = ID (MessageChat (UpdateMessage update)),
                      MessageOptions = update_options\<rparr>,
            Unlock PoolMutex]"
proof -
  from assms(1) obtain userID session where
    u: "Username (From (UpdateMessage update)) = Some userID"
    and a: "isAvailableID g userID" and s: "Sessions (pool g) userID = Some session"
    by (auto simp: admitted_def split: option.splits)
  have "update_message e g session (update_text update) = ''''"
    using assms(2,3) showcode_not_start [OF assms(2)] showcode_not_execute [OF assms(2)]
    by (cases "CurrentStatus session")
       (simp add: update_message_def commandStart_def commandExecute_def commandShowCode_def
          readCode_def)
  then have "snd (processUpdate e g update) =
           [Lock PoolMutex,
            ChanSend \<lparr>ChatID = ID (MessageChat (UpdateMessage update)),
                      MessageOptions = update_options\<rparr>,
            Unlock PoolMutex]"
    using u a s by (simp add: processUpdate_def update_text_def Let_def)
  then show ?thesis by (simp add: dispatch_def)
qed

theorem showcode_empty_file_enqueues_witness:
  "admitted sample_globals (sample_update ''telegram_id_1'' (Some ''/showcode'')) \<and>
   dispatch (sample_env\<lparr>ioutil_ReadFile := \<lambda>p. Inr ''''\<rparr>) sample_globals
       (sample_update ''telegram_id_1'' (Some ''/showcode''))
     = [Enqueue \<lparr>ChatID = 42, MessageOptions = update_options\<rparr>] \<and>
   outcomes (snd (processUpdate (sample_env\<lparr>ioutil_ReadFile := \<lambda>p. Inr ''''\<rparr>) sample_globals
       (sample_update ''telegram_id_1'' (Some ''/showcode''))))
     = [Enqueue \<lparr>ChatID = 42, MessageOptions = update_options\<rparr>]"
  using showcode_empty_file_enqueues [OF sample_admitted,
      of "Some ''/showcode''" "sample_env\<lparr>ioutil_ReadFile := \<lambda>p. Inr ''''\<rparr>"]
    sample_admitted [of "Some ''/showcode''"]
  by (simp add: sample_update_text) (simp add: sample_update_def)

text \<open>
  C1: \<open>/showcode\<close> does not always reply with the contents of the script file. With a
  readable, empty script file the update is answered by no message at all: an execution
  request is pushed instead, as for \<open>/execute\<close>.
\<close>

theorem showcode_empty_file_runs_script:
  "dispatch (sample_env\<lparr>ioutil_ReadFile := \<lambda>p. Inr ''''\<rparr>) sample_globals
       (sample_update ''telegram_id_2'' (Some ''/showcode''))
     = [Enqueue \<lparr>ChatID = 42, MessageOptions = update_options\<rparr>]"
  by (simp add: dispatch_def processUpdate_def sample_globals_def sample_update_def
      sample_env_def isAvailableID_def init_sessions_def HasText_def update_message_def
      commandStart_def commandExecute_def commandShowCode_def readCode_def)

lemma showcode_reply:
  assumes "admitted g update"
    and "prefix ''/showcode'' (update_text update)"
  shows "(\<forall>bytes. ioutil_ReadFile e (scriptPath g) = Inr bytes \<and> bytes \<noteq> [] \<longrightarrow>
            dispatch e g update = [ReplyWith bytes]) \<and>
         (\<forall>err. ioutil_ReadFile e (scriptPath g) = Inl err \<longrightarrow>
            dispatch e g update = [ReplyWith (''Error: '' @ err)])"
proof -
  obtain session where d: "dispatch e g update =
       (let message = update_message e g session (update_text update) in
        if length message > 0 then [ReplyWith message]
        else [Enqueue \<lparr>ChatID = ID (MessageChat (UpdateMessage update)),
                       MessageOptions = update_options\<rparr>])"
    using assms(1) by (rule dispatch_admitted)
  have "update_message e g session (update_text update) = readCode e g"
    using assms(2) showcode_not_start [OF assms(2)] showcode_not_execute [OF assms(2)]
    by (cases "CurrentStatus session")
       (simp add: update_message_def commandStart_def commandExecute_def commandShowCode_def)
  with d show ?thesis
    by (auto simp: Let_def readCode_def messageErrorFormat_def)
qed

text \<open>
  C10: on every update whose text is not empty, the earlier copy of \<open>processUpdate\<close>
  returns the same result and performs the same actions as the current one, so the
  outcomes and the reply agree; on an empty text from an allowed identity with its session
  present the current one replies \<open>"Unknown command."\<close> and the earlier one
  \<open>": Unknown command."\<close>.
\<close>

theorem legacy_differs_only_on_empty_text:
  "(update_text update \<noteq> [] \<longrightarrow>
      processUpdate_legacy e g update = processUpdate e g update \<and>
      dispatch_legacy e g update = dispatch e g update) \<and>
   (admitted g update \<and> update_text update = [] \<longrightarrow>
      dispatch e g update = [ReplyWith ''Unknown command.''] \<and>
      dispatch_legacy e g update = [ReplyWith '': Unknown command.''])"
proof -
  have msg: "t \<noteq> [] \<Longrightarrow> update_message_legacy e g session t = update_message e g session t"
    for session t
    by (simp add: update_message_legacy_def update_message_def)
  have eq: "processUpdate_legacy e g update = processUpdate e g update"
    if "update_text update \<noteq> []"
  proof -
    from that have t: "HasText (UpdateMessage update)"
      and "(case Text (UpdateMessage update) of Some t \<Rightarrow> t | None \<Rightarrow> '''') \<noteq> []"
      by (auto simp: update_text_def split: if_splits)
    then show ?thesis
      by (simp add: processUpdate_legacy_def processUpdate_def Let_def msg
          split: option.splits)
  qed
  have empty: "dispatch e g update = [ReplyWith ''Unknown command.''] \<and>
      dispatch_legacy e g update = [ReplyWith '': Unknown command.'']"
    if a: "admitted g update" and t: "update_text update = []"
  proof -
    from a obtain userID session where
      u: "Username (From (UpdateMessage update)) = Some userID"
      and av: "isAvailableID g userID" and s: "Sessions (pool g) userID = Some session"
      by (auto simp: admitted_def split: option.splits)
    have m1: "update_message e g session [] = ''Unknown command.''"
      by (cases "CurrentStatus session")
         (simp add: update_message_def commandStart_def commandExecute_def commandShowCode_def
          messageUnknownCommand_def)
    have m2: "update_message_legacy e g session [] = '': Unknown command.''"
      by (cases "CurrentStatus session")
         (simp add: update_message_legacy_def commandStart_def commandExecute_def
          commandShowCode_def messageUnknownCommand_def)
    from t have t': "(if HasText (UpdateMessage update)
        then (case Text (UpdateMessage update) of Some t \<Rightarrow> t | None \<Rightarrow> '''') else '''') = []"
      by (simp add: update_text_def)
    show ?thesis
      using u av s m1 m2
      by (simp add: dispatch_def dispatch_legacy_def processUpdate_def processUpdate_legacy_def
          Let_def t')
  qed
  show ?thesis using eq empty by (simp add: dispatch_def dispatch_legacy_def)
qed

theorem legacy_differs_only_on_empty_text_witness:
  "update_text (sample_update ''telegram_id_1'' (Some ''/showcode'')) \<noteq> [] \<and>
   processUpdate_legacy sample_env sample_globals (sample_update ''telegram_id_1'' (Some ''/showcode''))
     = processUpdate sample_env sample_globals (sample_update ''telegram_id_1'' (Some ''/showcode'')) \<and>
   admitted sample_globals (sample_update ''telegram_id_1'' None) \<and>
   update_text (sample_update ''telegram_id_1'' None) = [] \<and>
   dispatch sample_env sample_globals (sample_update ''telegram_id_1'' None)
     = [ReplyWith ''Unknown command.''] \<and>
   dispatch_legacy sample_env sample_globals (sample_update ''telegram_id_1'' None)
     = [ReplyWith '': Unknown command.'']"
proof -
  have t: "update_text (sample_update ''telegram_id_1'' None) = []"
    by (simp add: update_text_def sample_update_def HasText_def)
  show ?thesis
    using legacy_differs_only_on_empty_text
        [of "sample_update ''telegram_id_1'' (Some ''/showcode'')" sample_env sample_globals]
      legacy_differs_only_on_empty_text
        [of "sample_update ''telegram_id_1'' None" sample_env sample_globals]
      sample_admitted [of None]
    by (simp add: sample_update_text t)
qed

section \<open>Properties of the worker\<close>

lemma processExecuteRequest_events:
  "snd (processExecuteRequest e g request) =
     Lock ExecuteLock # snd (execute_body e g request) @ [Unlock ExecuteLock]"
  by (simp add: processExecuteRequest_def split: prod.splits)

text \<open>
  C8: when the run of the script fails, the worker sends exactly one text message,
  \<open>"Error running script: <error> (<output>)"\<close>, and no photo and no video; when that send
  fails, the failure is logged and nothing more is sent.
\<close>

theorem script_failure_reply:
  assumes "exec_CombinedOutput e (scriptPath g) = (bytes, Some err)"
  shows "message_sends (snd (processExecuteRequest e g request)) =
           [(ChatID request, ''Error running script: '' @ err @ '' ('' @ bytes @ '')'',
             MessageOptions request)] \<and>
         photo_sends (snd (processExecuteRequest e g request)) = [] \<and>
         video_sends (snd (processExecuteRequest e g request)) = [] \<and>
         (\<not> Ok (bot_SendMessage e (ChatID request)
                  (''Error running script: '' @ err @ '' ('' @ bytes @ '')'')
                  (MessageOptions request)) \<longrightarrow>
            snd (processExecuteRequest e g request) =
              [Lock ExecuteLock,
               SendChatAction (ChatID request) ChatActionTyping,
               ExecCommand (scriptPath g),
               LogPrintf (''*** Error running script: '' @ err @ '' ('' @ bytes @ '')''),
               SendMessage (ChatID request)
                 (''Error running script: '' @ err @ '' ('' @ bytes @ '')'')
                 (MessageOptions request),
               LogPrintf (''*** Failed to send error message: '' @
                 Description (bot_SendMessage e (ChatID request)
                   (''Error running script: '' @ err @ '' ('' @ bytes @ '')'')
                   (MessageOptions request))),
               Unlock ExecuteLock])"
  using assms
  by (simp add: processExecuteRequest_events execute_body_def Let_def)

text \<open>
  C7: when the run of the script succeeds, the sniffed type of the output selects the
  delivery: a type beginning with \<open>image\<close> sends the output as a photo and no video, a type
  beginning with \<open>video\<close> sends it as a video and no photo, and any other type sends it as
  one text message; a text message in the first two cases is only the report of a failed
  photo or video send, sent with the options map as the failed call has left it.
\<close>

theorem response_classification:
  assumes "exec_CombinedOutput e (scriptPath g) = (bytes, None)"
  shows "(prefix ''image'' (http_DetectContentType e bytes) \<longrightarrow>
            photo_sends (snd (processExecuteRequest e g request)) =
              [(ChatID request, bytes, MessageOptions request)] \<and>
            video_sends (snd (processExecuteRequest e g request)) = [] \<and>
            message_sends (snd (processExecuteRequest e g request)) =
              (if Ok (fst (bot_SendPhoto e (ChatID request) bytes (MessageOptions request)))
               then []
               else [(ChatID request,
                      ''Failed to send photo: '' @
                        Description
                          (fst (bot_SendPhoto e (ChatID request) bytes (MessageOptions request))),
                      snd (bot_SendPhoto e (ChatID request) bytes (MessageOptions request)))])) \<and>
         (prefix ''video'' (http_DetectContentType e bytes) \<longrightarrow>
            video_sends (snd (processExecuteRequest e g request)) =
              [(ChatID request, bytes, MessageOptions request)] \<and>
            photo_sends (snd (processExecuteRequest e g request)) = [] \<and>
            message_sends (snd (processExecuteRequest e g request)) =
              (if Ok (fst (bot_SendVideo e (ChatID request) bytes (MessageOptions request)))
               then []
               else [(ChatID request,
                      ''Failed to send video: '' @
                        Description
                          (fst (bot_SendVideo e (ChatID request) bytes (MessageOptions request))),
                      snd (bot_SendVideo e (ChatID request) bytes (MessageOptions request)))])) \<and>
         (\<not> prefix ''image'' (http_DetectContentType e bytes) \<and>
          \<not> prefix ''video'' (http_DetectContentType e bytes) \<longrightarrow>
            message_sends (snd (processExecuteRequest e g request)) =
              [(ChatID request, bytes, MessageOptions request)] \<and>
            photo_sends (snd (processExecuteRequest e g request)) = [] \<and>
            video_sends (snd (processExecuteRequest e g request)) = [])"
proof -
  have excl: "prefix ''video'' m \<Longrightarrow> \<not> prefix ''image'' m" for m
    by (auto simp: prefix_def)
  show ?thesis
    using assms
    by (auto simp: processExecuteRequest_events execute_body_def Let_def
        split: prod.splits dest: excl)
qed

theorem script_failure_reply_witness:
  "exec_CombinedOutput
     (sample_env\<lparr>exec_CombinedOutput := \<lambda>p. (''Traceback'', Some ''exit status 1''),
                  bot_SendMessage := \<lambda>c m opts. failed_response ''Forbidden''\<rparr>)
     (scriptPath sample_globals) = (''Traceback'', Some ''exit status 1'') \<and>
   snd (processExecuteRequest
     (sample_env\<lparr>exec_CombinedOutput := \<lambda>p. (''Traceback'', Some ''exit status 1''),
                  bot_SendMessage := \<lambda>c m opts. failed_response ''Forbidden''\<rparr>)
     sample_globals sample_request) =
     [Lock ExecuteLock,
      SendChatAction 42 ChatActionTyping,
      ExecCommand ''/home/pi/python/opencv/detect_face.py'',
      LogPrintf ''*** Error running script: exit status 1 (Traceback)'',
      SendMessage 42 ''Error running script: exit status 1 (Traceback)'' update_options,
      LogPrintf ''*** Failed to send error message: Forbidden'',
      Unlock ExecuteLock]"
proof -
  have h: "exec_CombinedOutput
     (sample_env\<lparr>exec_CombinedOutput := \<lambda>p. (''Traceback'', Some ''exit status 1''),
                  bot_SendMessage := \<lambda>c m opts. failed_response ''Forbidden''\<rparr>)
     (scriptPath sample_globals) = (''Traceback'', Some ''exit status 1'')"
    by simp
  show ?thesis
    using script_failure_reply [OF h, of sample_request] h
    by (simp add: failed_response_def sample_request_def sample_globals_def)
qed

section \<open>Properties of the running system\<close>

lemma execute_body_no_lock: "no_execute_lock (snd (execute_body e g request))"
  by (simp add: execute_body_def no_execute_lock_def Let_def split: prod.splits option.splits)

lemma execute_body_runs_script:
  "ExecCommand (scriptPath g) \<in> set (snd (execute_body e g request))"
  by (simp add: execute_body_def Let_def split: prod.splits option.splits)

lemma processUpdate_no_lock: "no_execute_lock (snd (processUpdate e g update))"
  by (simp add: processUpdate_def no_execute_lock_def Let_def split: option.splits)

lemma filter_update_count:
  "i < length xs \<Longrightarrow>
   length (filter P (xs[i := y])) + (if P (xs ! i) then 1 else 0) =
   length (filter P xs) + (if P y then 1 else 0)"
proof (induction xs arbitrary: i)
  case Nil
  then show ?case by simp
next
  case (Cons x xs)
  then show ?case by (cases i) auto
qed

lemma ok_idle: "program_ok t \<Longrightarrow> todo t = [] \<Longrightarrow> \<not> in_flight t"
  by (auto simp: program_ok_def in_flight_def no_execute_lock_def split: if_splits)

lemma ok_before_lock:
  assumes "program_ok t" "todo t = Lock ExecuteLock # rest"
  shows "past t = []"
proof (rule ccontr)
  assume "past t \<noteq> []"
  from assms obtain body where
    b: "past t @ Lock ExecuteLock # rest = Lock ExecuteLock # body @ [Unlock ExecuteLock]"
    and n: "no_execute_lock body"
    by (auto simp: program_ok_def no_execute_lock_def split: if_splits)
  from \<open>past t \<noteq> []\<close> obtain p ps where "past t = p # ps" by (cases "past t") auto
  with b have "ps @ Lock ExecuteLock # rest = body @ [Unlock ExecuteLock]" by simp
  then have "Lock ExecuteLock \<in> set (body @ [Unlock ExecuteLock])"
    by (metis in_set_conv_decomp)
  with n show False by (simp add: no_execute_lock_def)
qed

lemma ok_inside:
  assumes "program_ok t" "worker t" "todo t = ev # rest" "ev \<noteq> Lock ExecuteLock"
  shows "in_flight t"
proof -
  from assms obtain body where
    b: "past t @ ev # rest = Lock ExecuteLock # body @ [Unlock ExecuteLock]"
    and n: "no_execute_lock body"
    by (auto simp: program_ok_def split: if_splits)
  from b assms(4) obtain ps where p: "past t = Lock ExecuteLock # ps"
    by (cases "past t") auto
  with b have "ps @ ev # rest = body @ [Unlock ExecuteLock]" by simp
  then have "\<exists>us. body = ps @ us"
    by (cases rest rule: rev_cases) (auto simp: append_eq_append_conv2 Cons_eq_append_conv)
  with n have "Unlock ExecuteLock \<notin> set ps"
    by (auto simp: no_execute_lock_def)
  with p show ?thesis by (simp add: in_flight_def)
qed

lemma ok_unlock:
  assumes "program_ok t" "todo t = Unlock ExecuteLock # rest"
  shows "in_flight t"
proof -
  from assms have "worker t"
    by (auto simp: program_ok_def no_execute_lock_def split: if_splits)
  with assms show ?thesis by (auto intro: ok_inside)
qed

lemma ok_advance:
  "program_ok t \<Longrightarrow> todo t = ev # rest \<Longrightarrow> program_ok (t\<lparr>past := past t @ [ev], todo := rest\<rparr>)"
  by (auto simp: program_ok_def split: if_splits)

lemma in_flight_advance:
  "in_flight (t\<lparr>past := past t @ [ev], todo := rest\<rparr>) =
     (if ev = Lock ExecuteLock then Unlock ExecuteLock \<notin> set (past t)
      else if ev = Unlock ExecuteLock then False
      else in_flight t)"
  by (auto simp: in_flight_def)

lemma run_invariant:
  assumes "P s" and "run s sched = Some s'"
    and "\<And>s a s'. P s \<Longrightarrow> step s a = Some s' \<Longrightarrow> P s'"
  shows "P s'"
  using assms(1,2)
proof (induction sched arbitrary: s)
  case Nil
  then show ?case by simp
next
  case (Cons a sched)
  then show ?case using assms(3) by (auto split: option.splits)
qed

lemma perform_threads: "perform s ev = Some s' \<Longrightarrow> threads s' = threads s"
  by (cases ev) (auto split: if_splits option.splits)

lemma perform_locked:
  "perform s ev = Some s' \<Longrightarrow>
   locked s' ExecuteLock =
     (if ev = Lock ExecuteLock then True
      else if ev = Unlock ExecuteLock then False
      else locked s ExecuteLock)"
  by (cases ev) (auto split: if_splits option.splits)

lemma lock_inv_act:
  assumes inv: "lock_inv s" and st: "step s (Act i) = Some s'"
  shows "lock_inv s'"
proof -
  from st obtain ev rest s1 where
    i: "i < length (threads s)" and td: "todo (threads s ! i) = ev # rest"
    and pf: "perform s ev = Some s1"
    and s': "s' = s1\<lparr>threads := (threads s1)
               [i := (threads s1 ! i)\<lparr>past := past (threads s1 ! i) @ [ev], todo := rest\<rparr>]\<rparr>"
    by (auto split: if_splits list.splits option.splits)
  let ?t = "threads s ! i"
  let ?t' = "?t\<lparr>past := past ?t @ [ev], todo := rest\<rparr>"
  have th: "threads s1 = threads s" using pf by (rule perform_threads)
  have ts': "threads s' = (threads s)[i := ?t']" using s' th by simp
  have lk: "locked s' ExecuteLock =
     (if ev = Lock ExecuteLock then True
      else if ev = Unlock ExecuteLock then False
      else locked s ExecuteLock)"
    using perform_locked [OF pf] s' by simp
  from inv i have ok: "program_ok ?t" by (simp add: lock_inv_def)
  from inv have cnt: "length (filter in_flight (threads s)) = (if locked s ExecuteLock then 1 else 0)"
    by (simp add: lock_inv_def)
  have oks: "\<forall>t \<in> set (threads s'). program_ok t"
  proof
    fix t assume "t \<in> set (threads s')"
    then have "t = ?t' \<or> t \<in> set (threads s)"
      using ts' set_update_subset_insert [of "threads s" i ?t'] by auto
    then show "program_ok t" using inv ok_advance [OF ok td] by (auto simp: lock_inv_def)
  qed
  have upd: "length (filter in_flight (threads s')) + (if in_flight ?t then 1 else 0) =
     length (filter in_flight (threads s)) + (if in_flight ?t' then 1 else 0)"
    using filter_update_count [OF i, of in_flight ?t'] ts' by simp
  have "length (filter in_flight (threads s')) = (if locked s' ExecuteLock then 1 else 0)"
  proof (cases "ev = Lock ExecuteLock")
    case True
    with pf have free: "\<not> locked s ExecuteLock" by (auto split: if_splits)
    with cnt have "length (filter in_flight (threads s)) = 0" by simp
    then have nf: "\<not> in_flight ?t" using i by (auto simp: filter_empty_conv)
    from True td ok have "past ?t = []" by (auto dest: ok_before_lock)
    then have "in_flight ?t'" using True by (simp add: in_flight_def)
    with upd nf cnt free lk True show ?thesis by simp
  next
    case False
    show ?thesis
    proof (cases "ev = Unlock ExecuteLock")
      case True
      with td ok have fl: "in_flight ?t" by (auto dest: ok_unlock)
      then have "length (filter in_flight (threads s)) \<noteq> 0"
        using i by (auto simp: filter_empty_conv)
      with cnt have "length (filter in_flight (threads s)) = 1" by (auto split: if_splits)
      moreover have "\<not> in_flight ?t'" using True by (simp add: in_flight_advance)
      ultimately show ?thesis using upd fl lk True by simp
    next
      case u: False
      with False have "in_flight ?t' = in_flight ?t" by (simp add: in_flight_advance)
      with upd cnt lk False u show ?thesis by simp
    qed
  qed
  with oks show ?thesis by (simp add: lock_inv_def)
qed

lemma lock_inv_arrive:
  assumes inv: "lock_inv s" and st: "step s (Arrive e u) = Some s'"
  shows "lock_inv s'"
proof -
  let ?t = "\<lparr>worker = False, past = [], todo = snd (processUpdate e (vars s) u)\<rparr>"
  from st have s': "threads s' = threads s @ [?t]" "locked s' = locked s" by auto
  have "program_ok ?t" by (simp add: program_ok_def processUpdate_no_lock)
  moreover have "\<not> in_flight ?t" by (simp add: in_flight_def)
  ultimately show ?thesis using inv s' by (auto simp: lock_inv_def)
qed

lemma lock_inv_receive:
  assumes inv: "lock_inv s" and st: "step s (Receive e i) = Some s'"
  shows "lock_inv s'"
proof -
  from st obtain r c where
    i: "i < length (threads s)" and idle: "todo (threads s ! i) = []"
    and s': "threads s' = (threads s)
               [i := \<lparr>worker = True, past = [], todo = snd (processExecuteRequest e (vars s) r)\<rparr>]"
            "locked s' = locked s"
    by (auto split: if_splits option.splits)
  let ?t' = "\<lparr>worker = True, past = [], todo = snd (processExecuteRequest e (vars s) r)\<rparr>"
  have ok': "program_ok ?t'"
    by (auto simp: program_ok_def processExecuteRequest_events execute_body_no_lock)
  have nf': "\<not> in_flight ?t'" by (simp add: in_flight_def)
  from inv i have "program_ok (threads s ! i)" by (simp add: lock_inv_def)
  then have nf: "\<not> in_flight (threads s ! i)" using idle by (rule ok_idle)
  have "length (filter in_flight (threads s')) = length (filter in_flight (threads s))"
    using filter_update_count [OF i, of in_flight ?t'] s' nf nf' by simp
  moreover have "\<forall>t \<in> set (threads s'). program_ok t"
  proof
    fix t assume "t \<in> set (threads s')"
    then have "t = ?t' \<or> t \<in> set (threads s)"
      using s' set_update_subset_insert [of "threads s" i ?t'] by auto
    then show "program_ok t" using inv ok' by (auto simp: lock_inv_def)
  qed
  ultimately show ?thesis using inv s' by (simp add: lock_inv_def)
qed

lemma lock_inv_step: "lock_inv s \<Longrightarrow> step s a = Some s' \<Longrightarrow> lock_inv s'"
  by (cases a) (auto intro: lock_inv_arrive lock_inv_receive lock_inv_act)

lemma lock_inv_main: "lock_inv (main_system g)"
  by (simp add: lock_inv_def main_system_def program_ok_def in_flight_def)

lemma lock_inv_run: "run (main_system g) sched = Some s \<Longrightarrow> lock_inv s"
  by (rule run_invariant [where P = lock_inv, OF lock_inv_main]) (auto intro: lock_inv_step)

lemma perform_config: "perform s ev = Some s' \<Longrightarrow> same_config g s \<Longrightarrow> same_config g s'"
  by (cases ev) (auto simp: same_config_def split: if_splits option.splits)

lemma same_config_step: "same_config g s \<Longrightarrow> step s a = Some s' \<Longrightarrow> same_config g s'"
proof (cases a)
  case (Act i)
  assume "same_config g s" "step s a = Some s'"
  with Act obtain ev s1 where "perform s ev = Some s1" "vars s' = vars s1"
    by (auto split: if_splits list.splits option.splits)
  with \<open>same_config g s\<close> perform_config [of s ev s1 g] show ?thesis
    by (simp add: same_config_def)
qed (auto simp: same_config_def split: if_splits option.splits)

lemma same_config_run: "run (main_system g) sched = Some s \<Longrightarrow> same_config g s"
proof -
  have "same_config g (main_system g)" by (simp add: same_config_def main_system_def)
  then show "run (main_system g) sched = Some s \<Longrightarrow> same_config g s"
    by (rule run_invariant [where P = "same_config g"]) (auto intro: same_config_step)
qed

lemma chan_inv_perform:
  "chan_inv s \<Longrightarrow> perform s ev = Some s' \<Longrightarrow>
   cap (executeChannel (vars s')) = numQueue \<and> length (queue s') \<le> numQueue \<and>
   pushed s' = popped s' @ queue s'"
  by (cases ev) (auto simp: chan_inv_def queue_def chan_send_def split: if_splits option.splits)

lemma chan_inv_step: "chan_inv s \<Longrightarrow> step s a = Some s' \<Longrightarrow> chan_inv s'"
proof (cases a)
  case (Act i)
  assume c: "chan_inv s" and "step s a = Some s'"
  with Act obtain ev s1 where p: "perform s ev = Some s1"
    and "vars s' = vars s1" "pushed s' = pushed s1" "popped s' = popped s1"
    by (auto split: if_splits list.splits option.splits)
  with chan_inv_perform [OF c p] show ?thesis by (simp add: chan_inv_def queue_def)
next
  case (Receive e i)
  assume "chan_inv s" "step s a = Some s'"
  with Receive show ?thesis
    by (auto simp: chan_inv_def queue_def chan_recv_def split: if_splits option.splits list.splits)
qed (auto simp: chan_inv_def queue_def)

lemma chan_inv_main:
  "cap (executeChannel g) = numQueue \<Longrightarrow> buf (executeChannel g) = [] \<Longrightarrow> chan_inv (main_system g)"
  by (simp add: chan_inv_def main_system_def queue_def)

lemma init_channel:
  "init (Inr config) = Inr g \<Longrightarrow> cap (executeChannel g) = numQueue \<and> buf (executeChannel g) = []"
  by (auto simp: init_def make_chan_def)

lemma chan_inv_run:
  assumes "init (Inr config) = Inr g" "run (main_system g) sched = Some s"
  shows "chan_inv s"
proof -
  have "chan_inv (main_system g)" using init_channel [OF assms(1)] by (simp add: chan_inv_main)
  then show ?thesis using assms(2)
    by (rule run_invariant [where P = chan_inv]) (auto intro: chan_inv_step)
qed

lemma init_sample: "init (Inr sample_config) = Inr sample_globals"
  by (simp add: init_def sample_config_def sample_globals_def)

lemma isAvailableID_loop_set: "isAvailableID_loop ids ident \<longleftrightarrow> ident \<in> set ids"
  by (induction ids) auto

lemma fold_sessions:
  "fold (\<lambda>v sessions. sessions(v \<mapsto> \<lparr>UserID = v, CurrentStatus = StatusWaiting\<rparr>)) ids m =
     (\<lambda>k. if k \<in> set ids then Some \<lparr>UserID = k, CurrentStatus = StatusWaiting\<rparr> else m k)"
  by (induction ids arbitrary: m) (auto simp: fun_eq_iff)

lemma init_sessions_eq:
  "init_sessions ids =
     (\<lambda>k. if k \<in> set ids then Some \<lparr>UserID = k, CurrentStatus = StatusWaiting\<rparr> else None)"
  by (simp add: init_sessions_def fold_sessions)

text \<open>
  C9: after initialization the registry has a session exactly for the identities of the
  allow-list, each with its own identity and the status \<open>StatusWaiting\<close>; in every state the
  system reaches, the registry and the allow-list are the ones of initialization, and an
  identity has a session if and only if it is allowed.
\<close>

theorem registry_matches_allow_list:
  assumes "init (Inr config) = Inr g"
  shows "dom (Sessions (pool g)) = set (allowedIds g) \<and>
         allowedIds g = AllowedIds config \<and>
         (\<forall>v \<in> set (allowedIds g).
            Sessions (pool g) v = Some \<lparr>UserID = v, CurrentStatus = StatusWaiting\<rparr>) \<and>
         (\<forall>sched s. run (main_system g) sched = Some s \<longrightarrow>
            pool (vars s) = pool g \<and> allowedIds (vars s) = allowedIds g \<and>
            (\<forall>ident. ident \<in> dom (Sessions (pool (vars s))) \<longleftrightarrow> isAvailableID (vars s) ident))"
proof -
  from assms have g: "allowedIds g = AllowedIds config"
    "Sessions (pool g) = init_sessions (AllowedIds config)"
    by (auto simp: init_def)
  have d: "dom (Sessions (pool g)) = set (allowedIds g)"
    by (auto simp: g init_sessions_eq dom_def)
  have v: "\<forall>v \<in> set (allowedIds g).
            Sessions (pool g) v = Some \<lparr>UserID = v, CurrentStatus = StatusWaiting\<rparr>"
    by (simp add: g init_sessions_eq)
  have r: "pool (vars s) = pool g \<and> allowedIds (vars s) = allowedIds g \<and>
            (\<forall>ident. ident \<in> dom (Sessions (pool (vars s))) \<longleftrightarrow> isAvailableID (vars s) ident)"
    if "run (main_system g) sched = Some s" for sched s
  proof -
    from that have "same_config g s" by (rule same_config_run)
    then show ?thesis using d by (simp add: same_config_def isAvailableID_def isAvailableID_loop_set)
  qed
  from g(1) d v r show ?thesis by blast
qed

text \<open>
  C3: in every state the system reaches, at most one goroutine is acting on an execution
  request, and the execution lock is held exactly then; a worker that has anything left
  to do but take the lock holds it; the actions of \<open>processExecuteRequest\<close> are the lock,
  then the script run and the deliveries (none of them touches the lock), then the
  unlock, in every branch.
\<close>

theorem single_execution_in_flight:
  assumes "run (main_system g) sched = Some s"
  shows "length (filter in_flight (threads s)) \<le> 1 \<and>
         (locked s ExecuteLock \<longleftrightarrow> (\<exists>t \<in> set (threads s). in_flight t)) \<and>
         (\<forall>i ev rest. i < length (threads s) \<and> worker (threads s ! i) \<and>
             todo (threads s ! i) = ev # rest \<and> ev \<noteq> Lock ExecuteLock \<longrightarrow>
             in_flight (threads s ! i) \<and> locked s ExecuteLock) \<and>
         (\<forall>e request.
            snd (processExecuteRequest e g request) =
              Lock ExecuteLock # snd (execute_body e g request) @ [Unlock ExecuteLock] \<and>
            no_execute_lock (snd (execute_body e g request)) \<and>
            ExecCommand (scriptPath g) \<in> set (snd (execute_body e g request)))"
proof -
  from assms have inv: "lock_inv s" by (rule lock_inv_run)
  then have cnt: "length (filter in_flight (threads s)) = (if locked s ExecuteLock then 1 else 0)"
    by (simp add: lock_inv_def)
  have one: "length (filter in_flight (threads s)) \<le> 1" using cnt by simp
  have held: "locked s ExecuteLock \<longleftrightarrow> (\<exists>t \<in> set (threads s). in_flight t)"
  proof
    assume "locked s ExecuteLock"
    with cnt have "filter in_flight (threads s) \<noteq> []" by auto
    then show "\<exists>t \<in> set (threads s). in_flight t" by (auto simp: filter_empty_conv)
  next
    assume "\<exists>t \<in> set (threads s). in_flight t"
    then have "filter in_flight (threads s) \<noteq> []" by (auto simp: filter_empty_conv)
    with cnt show "locked s ExecuteLock" by (auto split: if_splits)
  qed
  have inside: "in_flight (threads s ! i) \<and> locked s ExecuteLock"
    if "i < length (threads s)" "worker (threads s ! i)"
      "todo (threads s ! i) = ev # rest" "ev \<noteq> Lock ExecuteLock" for i ev rest
  proof -
    from inv that(1) have "program_ok (threads s ! i)" by (simp add: lock_inv_def)
    then have "in_flight (threads s ! i)" using that(2-4) by (rule ok_inside)
    with held that(1) show ?thesis by auto
  qed
  show ?thesis
    using one held inside processExecuteRequest_events execute_body_no_lock
      execute_body_runs_script
    by blast
qed

lemma send_blocked:
  assumes "cap (executeChannel (vars s)) = numQueue" "length (queue s) = numQueue"
    and "i < length (threads s)" "todo (threads s ! i) = ChanSend r # rest"
  shows "step s (Act i) = None"
  using assms by (simp add: chan_send_def queue_def)

lemma send_stays_blocked:
  assumes c: "cap (executeChannel (vars s)) = numQueue" and f: "length (queue s) = numQueue"
    and i: "i < length (threads s)" and td: "todo (threads s ! i) = ChanSend r # rest"
    and st: "step s a = Some s'" and nr: "\<forall>e w. a \<noteq> Receive e w"
  shows "queue s' = queue s \<and> i < length (threads s') \<and> todo (threads s' ! i) = ChanSend r # rest"
proof (cases a)
  case (Arrive e u)
  with st i td show ?thesis by (auto simp: queue_def nth_append)
next
  case (Receive e w)
  with nr show ?thesis by simp
next
  case (Act j)
  have "j \<noteq> i" using send_blocked [OF c f i td] st Act by auto
  from st Act obtain ev rest' s1 where
    j: "j < length (threads s)" and tj: "todo (threads s ! j) = ev # rest'"
    and pf: "perform s ev = Some s1"
    and s': "s' = s1\<lparr>threads := (threads s1)
               [j := (threads s1 ! j)\<lparr>past := past (threads s1 ! j) @ [ev], todo := rest'\<rparr>]\<rparr>"
    by (auto split: if_splits list.splits option.splits)
  have "\<forall>r'. ev \<noteq> ChanSend r'"
    using pf c f by (auto simp: chan_send_def queue_def)
  with pf have "vars s1 = vars s \<and> threads s1 = threads s"
    by (cases ev) (auto split: if_splits)
  with s' \<open>j \<noteq> i\<close> i td show ?thesis by (simp add: queue_def)
qed

lemma send_after_receive:
  assumes c: "cap (executeChannel (vars s)) = numQueue" and f: "length (queue s) \<le> numQueue"
    and i: "i < length (threads s)" and td: "todo (threads s ! i) = ChanSend r # rest"
    and st: "step s (Receive e w) = Some s'"
  shows "\<exists>s''. step s' (Act i) = Some s'' \<and> queue s'' = tl (queue s) @ [r]"
proof -
  from st td have "w \<noteq> i" by (auto split: if_splits)
  from st obtain x xs where q: "queue s = x # xs"
    and v: "vars s' = (vars s)\<lparr>executeChannel := (executeChannel (vars s))\<lparr>buf := xs\<rparr>\<rparr>"
    and t: "threads s' = (threads s)
               [w := \<lparr>worker = True, past = [], todo = snd (processExecuteRequest e (vars s) x)\<rparr>]"
    by (auto simp: chan_recv_def queue_def split: if_splits option.splits list.splits)
  from f q have "length xs < numQueue" by simp
  with c v t i td \<open>w \<noteq> i\<close> q show ?thesis
    by (simp add: chan_send_def queue_def)
qed

text \<open>
  C4: in every state the system reaches, the execution queue holds at most 4 requests,
  and the requests sent are the requests received followed by the queue (first in, first
  out); with 4 requests queued, a goroutine about to send is blocked, stays so under every
  move but a receive of a worker, and can send once a worker has received.
\<close>

theorem queue_bounded_fifo:
  assumes "init (Inr config) = Inr g" and "run (main_system g) sched = Some s"
  shows "length (queue s) \<le> 4 \<and>
         pushed s = popped s @ queue s \<and>
         (\<forall>i r rest. i < length (threads s) \<and> todo (threads s ! i) = ChanSend r # rest \<and>
              length (queue s) = 4 \<longrightarrow>
            step s (Act i) = None \<and>
            (\<forall>a s'. step s a = Some s' \<and> (\<forall>e w. a \<noteq> Receive e w) \<longrightarrow>
               length (queue s') = 4 \<and> i < length (threads s') \<and>
               todo (threads s' ! i) = ChanSend r # rest) \<and>
            (\<forall>e w s'. step s (Receive e w) = Some s' \<longrightarrow>
               (\<exists>s''. step s' (Act i) = Some s'' \<and> queue s'' = tl (queue s) @ [r])))"
proof -
  from assms have inv: "chan_inv s" by (rule chan_inv_run)
  then have c: "cap (executeChannel (vars s)) = numQueue" and l: "length (queue s) \<le> numQueue"
    and h: "pushed s = popped s @ queue s"
    by (simp_all add: chan_inv_def)
  have n: "numQueue = 4" by (simp add: numQueue_def)
  have blocked: "step s (Act i) = None \<and>
            (\<forall>a s'. step s a = Some s' \<and> (\<forall>e w. a \<noteq> Receive e w) \<longrightarrow>
               length (queue s') = 4 \<and> i < length (threads s') \<and>
               todo (threads s' ! i) = ChanSend r # rest) \<and>
            (\<forall>e w s'. step s (Receive e w) = Some s' \<longrightarrow>
               (\<exists>s''. step s' (Act i) = Some s'' \<and> queue s'' = tl (queue s) @ [r]))"
    if i: "i < length (threads s)" and td: "todo (threads s ! i) = ChanSend r # rest"
      and f: "length (queue s) = 4" for i r rest
  proof -
    from f n have f': "length (queue s) = numQueue" by simp
    have 1: "step s (Act i) = None" using c f' i td by (rule send_blocked)
    have 2: "length (queue s') = 4 \<and> i < length (threads s') \<and>
               todo (threads s' ! i) = ChanSend r # rest"
      if "step s a = Some s'" "\<forall>e w. a \<noteq> Receive e w" for a s'
      using send_stays_blocked [OF c f' i td that] f by simp
    have 3: "\<exists>s''. step s' (Act i) = Some s'' \<and> queue s'' = tl (queue s) @ [r]"
      if "step s (Receive e w) = Some s'" for e w s'
      using c l i td that by (rule send_after_receive)
    from 1 2 3 show ?thesis by blast
  qed
  from l n have "length (queue s) \<le> 4" by simp
  with h blocked show ?thesis by blast
qed

section \<open>The properties at sample inputs\<close>

lemmas sample_defs = sample_schedule_def sample_globals_def sample_env_def sample_update_def
  main_system_def processUpdate_def processExecuteRequest_def execute_body_def
  isAvailableID_def init_sessions_def HasText_def update_message_def
  commandStart_def commandExecute_def commandShowCode_def make_chan_def numQueue_def
  chan_send_def chan_recv_def ok_response_def in_flight_def 
  execute_update_def burst_schedule_def

theorem single_execution_in_flight_witness:
  "\<exists>s. run (main_system sample_globals) sample_schedule = Some s \<and>
       length (filter in_flight (threads s)) = 1 \<and> locked s ExecuteLock \<and>
       in_flight (threads s ! 0)"
proof -
  have "map_option (\<lambda>s. (length (filter in_flight (threads s)), length (threads s),
            worker (threads s ! 0), todo (threads s ! 0)))
          (run (main_system sample_globals) sample_schedule) =
        Some (1, 2, True,
              [ExecCommand ''/home/pi/python/opencv/detect_face.py'',
               SendMessage 42 ''no face'' update_options,
               Unlock ExecuteLock])"
    by (simp add: sample_defs Let_def)
  then obtain s where r: "run (main_system sample_globals) sample_schedule = Some s"
    and c: "length (filter in_flight (threads s)) = 1" and l: "length (threads s) = 2"
    and w: "worker (threads s ! 0)"
    and t: "todo (threads s ! 0) =
              [ExecCommand ''/home/pi/python/opencv/detect_face.py'',
               SendMessage 42 ''no face'' update_options,
               Unlock ExecuteLock]"
    by auto
  from l have "0 < length (threads s)" by simp
  with single_execution_in_flight [OF r] w t
  have "in_flight (threads s ! 0) \<and> locked s ExecuteLock" by blast
  with r c show ?thesis by blast
qed

theorem queue_bounded_fifo_witness:
  "(\<exists>s. init (Inr sample_config) = Inr sample_globals \<and>
        run (main_system sample_globals) burst_schedule = Some s \<and>
        map ChatID (queue s) = [1, 2, 3, 4] \<and>
        map ChatID (pushed s) = [1, 2, 3, 4] \<and>
        step s (Act 5) = None) \<and>
   map_option (\<lambda>s. (map ChatID (popped s), map ChatID (queue s)))
     (run (main_system sample_globals) (burst_schedule @ [Receive sample_env 0, Act 5])) =
     Some ([1], [2, 3, 4, 5])"
proof -
  have "map_option (\<lambda>s. (map ChatID (queue s), length (threads s),
            map ChatID (pushed s), todo (threads s ! 5)))
          (run (main_system sample_globals) burst_schedule) =
        Some ([1, 2, 3, 4], 6, [1, 2, 3, 4],
              [ChanSend \<lparr>ChatID = 5, MessageOptions = update_options\<rparr>, Unlock PoolMutex])"
    by (simp add: sample_defs Let_def queue_def)
  then obtain s where r: "run (main_system sample_globals) burst_schedule = Some s"
    and q: "map ChatID (queue s) = [1, 2, 3, 4]" and l: "length (threads s) = 6"
    and p: "map ChatID (pushed s) = [1, 2, 3, 4]"
    and t: "todo (threads s ! 5) =
              [ChanSend \<lparr>ChatID = 5, MessageOptions = update_options\<rparr>, Unlock PoolMutex]"
    by auto
  from q have "length (map ChatID (queue s)) = 4" by simp
  then have len: "length (queue s) = 4" by simp
  from l have l5: "5 < length (threads s)" by simp
  from queue_bounded_fifo [OF init_sample r] l5 t len
  have b: "step s (Act 5) = None" by blast
  have e: "map_option (\<lambda>s. (map ChatID (popped s), map ChatID (queue s)))
     (run (main_system sample_globals) (burst_schedule @ [Receive sample_env 0, Act 5])) =
     Some ([1], [2, 3, 4, 5])"
    by (simp add: sample_defs Let_def queue_def)
  have "\<exists>s. init (Inr sample_config) = Inr sample_globals \<and>
        run (main_system sample_globals) burst_schedule = Some s \<and>
        map ChatID (queue s) = [1, 2, 3, 4] \<and>
        map ChatID (pushed s) = [1, 2, 3, 4] \<and>
        step s (Act 5) = None"
    using init_sample r q p b by (intro exI [of _ s] conjI)
  then show ?thesis using e by (rule conjI)
qed

theorem registry_matches_allow_list_witness:
  "init (Inr sample_config) = Inr sample_globals \<and>
   dom (Sessions (pool sample_globals)) = {''telegram_id_1'', ''telegram_id_2''} \<and>
   Sessions (pool sample_globals) ''telegram_id_2'' =
     Some \<lparr>UserID = ''telegram_id_2'', CurrentStatus = StatusWaiting\<rparr> \<and>
   (\<exists>s. run (main_system sample_globals) sample_schedule = Some s \<and>
        dom (Sessions (pool (vars s))) = {''telegram_id_1'', ''telegram_id_2''})"
proof -
  note th = registry_matches_allow_list [OF init_sample]
  have a: "allowedIds sample_globals = [''telegram_id_1'', ''telegram_id_2'']"
    by (simp add: sample_globals_def)
  from th a have d: "dom (Sessions (pool sample_globals)) = {''telegram_id_1'', ''telegram_id_2''}"
    by auto
  from th a have v: "Sessions (pool sample_globals) ''telegram_id_2'' =
     Some \<lparr>UserID = ''telegram_id_2'', CurrentStatus = StatusWaiting\<rparr>"
    by simp
  have "map_option (\<lambda>s. length (threads s)) (run (main_system sample_globals) sample_schedule)
          = Some 2"
    by (simp add: sample_defs Let_def)
  then obtain s where r: "run (main_system sample_globals) sample_schedule = Some s" by auto
  with th have "pool (vars s) = pool sample_globals" by blast
  with d r init_sample v show ?thesis by auto
qed

theorem response_classification_witness:
  "exec_CombinedOutput camera_env (scriptPath sample_globals) = (png_signature @ ''IHDR'', None) \<and>
   http_DetectContentType camera_env (png_signature @ ''IHDR'') = ''image/png'' \<and>
   photo_sends (snd (processExecuteRequest camera_env sample_globals sample_request)) =
     [(42, png_signature @ ''IHDR'', update_options)] \<and>
   video_sends (snd (processExecuteRequest camera_env sample_globals sample_request)) = [] \<and>
   message_sends (snd (processExecuteRequest camera_env sample_globals sample_request)) = [] \<and>
   photo_sends (snd (processExecuteRequest refused_photo_env sample_globals sample_request)) =
     [(42, png_signature @ ''IHDR'', update_options)] \<and>
   message_sends (snd (processExecuteRequest refused_photo_env sample_globals sample_request)) =
     [(42, ''Failed to send photo: Bad Request'',
       update_options(''chat_id'' \<mapsto> ChatIDValue 42,
                      ''photo'' \<mapsto> InputFileFromBytes (png_signature @ ''IHDR'')))]"
proof -
  have h: "exec_CombinedOutput camera_env (scriptPath sample_globals) =
             (png_signature @ ''IHDR'', None)"
    by (simp add: camera_env_def)
  have m: "http_DetectContentType camera_env (png_signature @ ''IHDR'') = ''image/png''"
    by (simp add: camera_env_def sample_sniff_def)
  have p: "prefix ''image'' ''image/png''" by simp
  have ok: "Ok (fst (bot_SendPhoto camera_env c b opts))" for c b opts
    by (simp add: camera_env_def sample_env_def ok_response_def)
  have h': "exec_CombinedOutput refused_photo_env (scriptPath sample_globals) =
             (png_signature @ ''IHDR'', None)"
    by (simp add: refused_photo_env_def camera_env_def)
  have m': "http_DetectContentType refused_photo_env (png_signature @ ''IHDR'') = ''image/png''"
    by (simp add: refused_photo_env_def camera_env_def sample_sniff_def)
  have r: "bot_SendPhoto refused_photo_env c b opts =
             (failed_response ''Bad Request'',
              opts(''chat_id'' \<mapsto> ChatIDValue c, ''photo'' \<mapsto> InputFileFromBytes b))"
    for c b opts
    by (simp add: refused_photo_env_def)
  have first: "photo_sends (snd (processExecuteRequest camera_env sample_globals sample_request)) =
       [(42, png_signature @ ''IHDR'', update_options)] \<and>
     video_sends (snd (processExecuteRequest camera_env sample_globals sample_request)) = [] \<and>
     message_sends (snd (processExecuteRequest camera_env sample_globals sample_request)) = []"
    using response_classification [OF h, of sample_request] m p ok
    by (simp add: sample_request_def)
  have second: "photo_sends (snd (processExecuteRequest refused_photo_env sample_globals sample_request)) =
       [(42, png_signature @ ''IHDR'', update_options)] \<and>
     message_sends (snd (processExecuteRequest refused_photo_env sample_globals sample_request)) =
       [(42, ''Failed to send photo: Bad Request'',
         update_options(''chat_id'' \<mapsto> ChatIDValue 42,
                        ''photo'' \<mapsto> InputFileFromBytes (png_signature @ ''IHDR'')))]"
    using response_classification [OF h', of sample_request] m' p
    by (simp add: r failed_response_def sample_request_def)
  from h m first second show ?thesis by simp
qed

end
